theory Spec2Isabelle
  imports Complex_Main
begin

section \<open>Values and errors\<close>

text \<open>
  The continuum model of \<^verbatim>\<open>continuummodel.py\<close> works on numpy arrays of floats and
  of booleans. A float array whose elements may be NaN is a list of \<open>npfloat\<close>: NaN is a
  value of its own, every other element is a real number (rounding and the infinities
  are outside this model). Wavelengths and range bounds are finite and are plain reals.
  A Python exception is a value of \<open>error\<close>, returned on the left of a sum.
\<close>

datatype error = IndexError | ValueError | TypeError

datatype npfloat = NaN | Fin real

text \<open>
  A value that is either an array or a tuple of values. Python does not order a tuple
  against a number, so the distinction decides whether a comparison raises.
\<close>

datatype pyval = Arr "npfloat list" | Tup "pyval list"

section \<open>Wavelength ranges and masks\<close>

text \<open>\<^verbatim>\<open>lessthan(a, b, strict)\<close>: \<open><\<close> when strict, \<open>\<le>\<close> otherwise.\<close>

definition lessthan :: "real \<Rightarrow> real \<Rightarrow> bool \<Rightarrow> bool" where
  "lessthan a b strict = (if strict then a < b else a \<le> b)"

text \<open>
  \<^verbatim>\<open>dlambda\<close> is a number or a pair; a number \<open>d\<close> stands for the pair \<open>(d, d)\<close>
  (\<^verbatim>\<open>if not isinstance(dlambda, Iterable): dlambda = (dlambda, dlambda)\<close>).
\<close>

datatype dlambda = Scalar real | Pair real real

fun dlambda_pair :: "dlambda \<Rightarrow> real \<times> real" where
  "dlambda_pair (Scalar d) = (d, d)"
| "dlambda_pair (Pair d0 d1) = (d0, d1)"

text \<open>
  The overflow test of both mask builders,
  \<^verbatim>\<open>r[0] + dlambda[0] < wave[0] or r[1] - dlambda[1] > wave[-1]\<close>,
  on a non-empty wavelength vector.
\<close>

definition overflows :: "real list \<Rightarrow> real \<times> real \<Rightarrow> real \<times> real \<Rightarrow> bool" where
  "overflows wave d r = (fst r + fst d < hd wave \<or> snd r - snd d > last wave)"

text \<open>
  The mask of one range,
  \<^verbatim>\<open>lessthan(r[0] + dlambda[0], wave, strict) & lessthan(wave, r[1] - dlambda[1], strict)\<close>,
  element by element.
\<close>

definition range_mask :: "real list \<Rightarrow> real \<times> real \<Rightarrow> bool \<Rightarrow> real \<times> real \<Rightarrow> bool list" where
  "range_mask wave d strict r =
     map (\<lambda>x. lessthan (fst r + fst d) x strict \<and> lessthan x (snd r - snd d) strict) wave"

text \<open>
  \<^verbatim>\<open>m &= mask\<close> on one-dimensional boolean arrays: numpy combines arrays of the same
  length element by element, broadcasts an operand of length one, and raises
  ValueError for any other pair of lengths (the result keeps the shape of \<open>m\<close>).
\<close>

definition and_mask :: "bool list \<Rightarrow> bool list \<Rightarrow> error + bool list" where
  "and_mask m msk =
     (if length msk = length m then Inr (map2 (\<and>) m msk)
      else if length msk = 1 then Inr (map (\<lambda>b. b \<and> hd msk) m)
      else Inl ValueError)"

text \<open>
  The loop of \<^verbatim>\<open>ranges_to_mask\<close> over \<^verbatim>\<open>enumerate(ranges)\<close>: \<open>i\<close> is the index of
  the range at the head of the list, \<open>m\<close> and \<open>overflow\<close> are the loop's two
  accumulators. Reading \<^verbatim>\<open>wave[0]\<close> of an empty vector raises IndexError.
\<close>

fun ranges_loop ::
  "real list \<Rightarrow> real \<times> real \<Rightarrow> bool \<Rightarrow> bool \<Rightarrow> nat \<Rightarrow> (real \<times> real) list \<Rightarrow>
   bool list \<Rightarrow> nat list \<Rightarrow> error + (bool list \<times> nat list)" where
  "ranges_loop wave d strict omit_overflow i [] m overflow = Inr (m, overflow)"
| "ranges_loop wave d strict omit_overflow i (r # rs) m overflow =
     (if wave = [] then Inl IndexError
      else if overflows wave d r then
        (if omit_overflow
         then ranges_loop wave d strict omit_overflow (Suc i) rs m (overflow @ [i])
         else ranges_loop wave d strict omit_overflow (Suc i) rs
                (map2 (\<or>) m (range_mask wave d strict r)) (overflow @ [i]))
      else ranges_loop wave d strict omit_overflow (Suc i) rs
             (map2 (\<or>) m (range_mask wave d strict r)) overflow)"

text \<open>
  \<^verbatim>\<open>ranges_to_mask(wave, ranges, mask, dlambda, strict, omit_overflow)\<close>. The ranges are
  a list of pairs (the source wraps a value that is not iterable into a list of one).
\<close>

definition ranges_to_mask ::
  "real list \<Rightarrow> (real \<times> real) list \<Rightarrow> bool list option \<Rightarrow> dlambda \<Rightarrow> bool \<Rightarrow> bool \<Rightarrow>
   error + (bool list \<times> nat list)" where
  "ranges_to_mask wave ranges msk dl strict omit_overflow =
     (case ranges_loop wave (dlambda_pair dl) strict omit_overflow 0 ranges
             (replicate (length wave) False) [] of
        Inl e \<Rightarrow> Inl e
      | Inr (m, overflow) \<Rightarrow>
          (case msk of
             None \<Rightarrow> Inr (m, overflow)
           | Some mk \<Rightarrow>
               (case and_mask m mk of
                  Inl e \<Rightarrow> Inl e
                | Inr m' \<Rightarrow> Inr (m', overflow))))"

text \<open>\<^verbatim>\<open>wave[m]\<close> for a boolean array \<open>m\<close> of the length of \<open>wave\<close>.\<close>

definition select :: "'a list \<Rightarrow> bool list \<Rightarrow> 'a list" where
  "select xs m = map fst (filter snd (zip xs m))"

text \<open>
  The actual range of a mask: \<^verbatim>\<open>[w[0], w[-1]]\<close> of \<^verbatim>\<open>w = wave[m]\<close>, or
  \<^verbatim>\<open>[nan, nan]\<close> when \<open>w\<close> is empty.
\<close>

definition actual_range :: "real list \<Rightarrow> bool list \<Rightarrow> npfloat \<times> npfloat" where
  "actual_range wave m =
     (let w = select wave m
      in if w = [] then (NaN, NaN) else (Fin (hd w), Fin (last w)))"

text \<open>
  The loop of \<^verbatim>\<open>limits_to_masks\<close> over \<^verbatim>\<open>range(len(limits) - 1)\<close>: the list holds
  the limits from index \<open>i\<close> on, and one round reads its first two elements. A limit
  that is \<^verbatim>\<open>None\<close> stands for \<^verbatim>\<open>wave[0]\<close> as a lower and for \<^verbatim>\<open>wave[-1]\<close> as an
  upper bound.
\<close>

fun limits_loop ::
  "real list \<Rightarrow> bool list option \<Rightarrow> real \<times> real \<Rightarrow> bool \<Rightarrow> bool \<Rightarrow> nat \<Rightarrow> real option list \<Rightarrow>
   bool list list \<Rightarrow> (npfloat \<times> npfloat) list \<Rightarrow> nat list \<Rightarrow>
   error + (bool list list \<times> (npfloat \<times> npfloat) list \<times> nat list)" where
  "limits_loop wave msk d strict omit_overflow i (a # b # ls) masks ranges overflow =
     (if wave = [] then Inl IndexError
      else
        let l0 = (case a of Some v \<Rightarrow> v | None \<Rightarrow> hd wave);
            l1 = (case b of Some v \<Rightarrow> v | None \<Rightarrow> last wave);
            over = overflows wave d (l0, l1);
            overflow' = (if over then overflow @ [i] else overflow)
        in if over \<and> omit_overflow
           then limits_loop wave msk d strict omit_overflow (Suc i) (b # ls) masks ranges overflow'
           else
             (case (case msk of
                      None \<Rightarrow> Inr (range_mask wave d strict (l0, l1))
                    | Some mk \<Rightarrow> and_mask (range_mask wave d strict (l0, l1)) mk) of
                Inl e \<Rightarrow> Inl e
              | Inr m \<Rightarrow>
                  limits_loop wave msk d strict omit_overflow (Suc i) (b # ls)
                    (masks @ [m]) (ranges @ [actual_range wave m]) overflow'))"
| "limits_loop wave msk d strict omit_overflow i ls masks ranges overflow =
     Inr (masks, ranges, overflow)"

definition limits_to_masks ::
  "real list \<Rightarrow> real option list \<Rightarrow> bool list option \<Rightarrow> dlambda \<Rightarrow> bool \<Rightarrow> bool \<Rightarrow>
   error + (bool list list \<times> (npfloat \<times> npfloat) list \<times> nat list)" where
  "limits_to_masks wave limits msk dl strict omit_overflow =
     limits_loop wave msk (dlambda_pair dl) strict omit_overflow 0 limits [] [] []"

section \<open>The model and its collaborators\<close>

text \<open>
  The function to fit (\<^verbatim>\<open>func\<close>): \<^verbatim>\<open>get_param_count()\<close>,
  \<^verbatim>\<open>get_min_point_count()\<close>, \<^verbatim>\<open>fit(x, y, w=..., p0=...)\<close> and \<^verbatim>\<open>eval(x, params)\<close>.
  A parameter vector is a float array.
\<close>

type_synonym param_vec = "npfloat list"

record fit_func =
  get_param_count :: nat
  get_min_point_count :: int
  fit :: "real list \<Rightarrow> real list \<Rightarrow> real list option \<Rightarrow> param_vec option \<Rightarrow> param_vec"
  eval :: "real list \<Rightarrow> param_vec \<Rightarrow> real list"

text \<open>
  The continuum finder: \<^verbatim>\<open>find(iter, x, y, w=w, mask=mask, model=model)\<close> returns a
  mask and whether more iterations are needed. The finder receives a reference to
  the mask array it is called with: it may write to that array (\<open>mask_in_place\<close> is
  the array's content after the call), and the mask it returns is either that same
  array or a new one. It has a state of its own, which a call may change.
\<close>

datatype returned = Same | Fresh "bool list"

record 'fs find_result =
  mask_in_place :: "bool list"
  returned_mask :: returned
  need_more_iter :: bool
  finder_after :: 'fs

record 'fs finder =
  finder_find ::
    "'fs \<Rightarrow> nat \<Rightarrow> real list \<Rightarrow> real list \<Rightarrow> real list option \<Rightarrow> bool list \<Rightarrow> real list \<Rightarrow>
     'fs find_result"
  finder_state :: 'fs

text \<open>
  The trace sink's hook \<^verbatim>\<open>on_fit_function_iter(id, iter, x, y, w, model, mask)\<close>. It
  returns nothing; it too receives a reference to the mask array, and its value here
  is the content of that array after the call.
\<close>

type_synonym trace_sink =
  "string \<Rightarrow> nat \<Rightarrow> real list \<Rightarrow> real list \<Rightarrow> real list option \<Rightarrow> real list \<Rightarrow> bool list \<Rightarrow> bool list"

text \<open>
  The attributes of a \<^verbatim>\<open>ContinuumModel\<close>. \<open>mask_bits\<close> is \<open>None\<close> while the instance
  has no such attribute: the constructor sets it only when it does not copy.
\<close>

record 'fs continuum_model =
  version :: int
  trace :: "trace_sink option"
  continuum_finder :: "'fs finder option"
  max_iter :: int
  use_spec_continuum :: bool
  use_spec_mask :: bool
  mask_bits :: "int option option"
  use_log_flux :: bool
  include_ranges :: "(real \<times> real) list option"
  include_mask :: "bool list option"
  include_overflow :: "nat list option"
  exclude_ranges :: "(real \<times> real) list option"
  exclude_mask :: "bool list option"
  exclude_overflow :: "nat list option"
  wave :: "real list option"

text \<open>
  \<^verbatim>\<open>ContinuumModel(continuum_finder, max_iter, trace, orig)\<close>. Without an original
  (\<^verbatim>\<open>not isinstance(orig, ContinuumModel)\<close>) every attribute gets its default. With one,
  the new instance takes the original's attributes, the caches among them, but for the
  finder, the iteration count and the trace sink passed to the constructor
  (\<^verbatim>\<open>trace or orig.trace\<close>, \<^verbatim>\<open>continuum_finder or orig.continuum_finder\<close>,
  \<^verbatim>\<open>max_iter if max_iter is not None else orig.max_iter\<close>); \<^verbatim>\<open>mask_bits\<close> is not
  assigned on this branch.
\<close>

definition ContinuumModel_init ::
  "'fs finder option \<Rightarrow> int option \<Rightarrow> trace_sink option \<Rightarrow> 'fs continuum_model option \<Rightarrow>
   'fs continuum_model" where
  "ContinuumModel_init finder_arg max_iter_arg trace_arg orig =
     (case orig of
        None \<Rightarrow>
          \<lparr> version = 1,
            trace = trace_arg,
            continuum_finder = finder_arg,
            max_iter = (case max_iter_arg of Some n \<Rightarrow> n | None \<Rightarrow> 5),
            use_spec_continuum = False,
            use_spec_mask = True,
            mask_bits = Some None,
            use_log_flux = False,
            include_ranges = None,
            include_mask = None,
            include_overflow = None,
            exclude_ranges = None,
            exclude_mask = None,
            exclude_overflow = None,
            wave = None \<rparr>
      | Some original \<Rightarrow>
          \<lparr> version = version original,
            trace = (case trace_arg of Some t \<Rightarrow> Some t | None \<Rightarrow> trace original),
            continuum_finder =
              (case finder_arg of Some f \<Rightarrow> Some f | None \<Rightarrow> continuum_finder original),
            max_iter = (case max_iter_arg of Some n \<Rightarrow> n | None \<Rightarrow> max_iter original),
            use_spec_continuum = use_spec_continuum original,
            use_spec_mask = use_spec_mask original,
            mask_bits = None,
            use_log_flux = use_log_flux original,
            include_ranges = include_ranges original,
            include_mask = include_mask original,
            include_overflow = include_overflow original,
            exclude_ranges = exclude_ranges original,
            exclude_mask = exclude_mask original,
            exclude_overflow = exclude_overflow original,
            wave = wave original \<rparr>)"

text \<open>
  \<^verbatim>\<open>init_wave(wave, force, omit_overflow)\<close>. Each of the three caches has its own
  gate: the wavelength vector is stored when forced or not yet set, a mask is computed
  (from the vector passed in) when its ranges are set and it is forced or not yet set.
  The method assigns as it goes, so a call that raises leaves the instance with the
  assignments made before the exception: the error comes with that instance.
\<close>

definition init_wave ::
  "'fs continuum_model \<Rightarrow> real list \<Rightarrow> bool \<Rightarrow> bool \<Rightarrow>
   (error \<times> 'fs continuum_model) + 'fs continuum_model" where
  "init_wave self wv force omit_overflow =
     (let s1 = (if force \<or> wave self = None then self\<lparr>wave := Some wv\<rparr> else self)
      in case (case include_ranges s1 of
                 None \<Rightarrow> Inr s1
               | Some rs \<Rightarrow>
                   if force \<or> include_mask s1 = None then
                     (case ranges_to_mask wv rs None (Scalar 0) False omit_overflow of
                        Inl e \<Rightarrow> Inl (e, s1)
                      | Inr (m, ov) \<Rightarrow> Inr (s1\<lparr>include_mask := Some m, include_overflow := Some ov\<rparr>))
                   else Inr s1) of
           Inl es \<Rightarrow> Inl es
         | Inr s2 \<Rightarrow>
             (case exclude_ranges s2 of
                None \<Rightarrow> Inr s2
              | Some rs \<Rightarrow>
                  if force \<or> exclude_mask s2 = None then
                    (case ranges_to_mask wv rs None (Scalar 0) False omit_overflow of
                       Inl e \<Rightarrow> Inl (e, s2)
                     | Inr (m, ov) \<Rightarrow> Inr (s2\<lparr>exclude_mask := Some m, exclude_overflow := Some ov\<rparr>))
                  else Inr s2))"

text \<open>
  A client that calls \<open>init_wave\<close> once per element of a list
  \<open>(wave, force, omit_overflow)\<close> and stops at the first call that raises.
\<close>

fun init_wave_calls ::
  "'fs continuum_model \<Rightarrow> (real list \<times> bool \<times> bool) list \<Rightarrow>
   (error \<times> 'fs continuum_model) + 'fs continuum_model" where
  "init_wave_calls self [] = Inr self"
| "init_wave_calls self ((wv, force, omit_overflow) # cs) =
     (case init_wave self wv force omit_overflow of
        Inl es \<Rightarrow> Inl es
      | Inr self' \<Rightarrow> init_wave_calls self' cs)"

text \<open>
  The invariant of the data model: a cached mask has the length of the cached
  wavelength vector.
\<close>

definition mask_fits :: "bool list option \<Rightarrow> real list option \<Rightarrow> bool" where
  "mask_fits m wv =
     (case m of
        None \<Rightarrow> True
      | Some mk \<Rightarrow> (case wv of None \<Rightarrow> False | Some v \<Rightarrow> length mk = length v))"

definition masks_match_wave :: "'fs continuum_model \<Rightarrow> bool" where
  "masks_match_wave self =
     (mask_fits (include_mask self) (wave self) \<and> mask_fits (exclude_mask self) (wave self))"

section \<open>The iterative fit\<close>

text \<open>
  \<^verbatim>\<open>x[mask]\<close> for a boolean array: numpy raises IndexError when the mask does not have
  the length of \<open>x\<close>.
\<close>

definition bool_index :: "'a list \<Rightarrow> bool list \<Rightarrow> error + 'a list" where
  "bool_index xs m = (if length m = length xs then Inr (select xs m) else Inl IndexError)"

text \<open>\<^verbatim>\<open>mask.sum()\<close>: the number of true elements.\<close>

definition count_true :: "bool list \<Rightarrow> nat" where
  "count_true m = length (filter (\<lambda>b. b) m)"

text \<open>
  The calls \<open>fit_function\<close> makes to its collaborators are logged, in order: a fit
  with the parameters it returned, a find with its iteration number, the mask it
  returned and its answer. The log is not in the source; it is what the claims about
  the number and the order of calls are stated on.
\<close>

datatype call = FitCall param_vec | FindCall nat "bool list" bool

text \<open>
  The local variables of \<open>fit_function\<close>. Boolean arrays live in a store (a list of
  arrays, an address is an index) and \<open>mask_ref\<close> is the address the variable
  \<^verbatim>\<open>mask\<close> holds, so that a write through one reference is seen through every other
  reference to the same array. \<open>finder\<close> is the finder in use, with its current state.
\<close>

record 'fs fit_state =
  iter :: nat
  params :: "param_vec option"
  success :: bool
  mask_ref :: nat
  heap :: "bool list list"
  finder :: "'fs finder option"
  calls :: "call list"

text \<open>How one round of a \<^verbatim>\<open>while True\<close> loop ends.\<close>

datatype 's flow = Continue 's | Break 's | Raise error 's

text \<open>
  The test \<^verbatim>\<open>iter == 0 and p0 is not None and self.continuum_finder is not None\<close>: the
  estimate to use in place of a fit, if any. It reads the model's own finder, not the
  one passed to the call.
\<close>

definition initial_estimate ::
  "'fs continuum_model \<Rightarrow> param_vec option \<Rightarrow> nat \<Rightarrow> param_vec option" where
  "initial_estimate self p0 it =
     (if it = 0 \<and> p0 \<noteq> None \<and> continuum_finder self \<noteq> None then p0 else None)"

text \<open>
  The first statement of the loop body: the parameters of this round, and the log.
  \<^verbatim>\<open>func.fit(x[mask], y[mask], w=w[mask] if w is not None else None, p0=params)\<close>.
\<close>

definition round_params ::
  "'fs continuum_model \<Rightarrow> fit_func \<Rightarrow> real list \<Rightarrow> real list \<Rightarrow> real list option \<Rightarrow>
   param_vec option \<Rightarrow> 'fs fit_state \<Rightarrow> error + (param_vec \<times> call list)" where
  "round_params self func x y w p0 s =
     (case initial_estimate self p0 (iter s) of
        Some q \<Rightarrow> Inr (q, calls s)
      | None \<Rightarrow>
          (case bool_index x (heap s ! mask_ref s) of
             Inl e \<Rightarrow> Inl e
           | Inr xm \<Rightarrow>
               (case bool_index y (heap s ! mask_ref s) of
                  Inl e \<Rightarrow> Inl e
                | Inr ym \<Rightarrow>
                    (case (case w of
                             None \<Rightarrow> Inr None
                           | Some wv \<Rightarrow>
                               (case bool_index wv (heap s ! mask_ref s) of
                                  Inl e \<Rightarrow> Inl e
                                | Inr wm \<Rightarrow> Inr (Some wm))) of
                       Inl e \<Rightarrow> Inl e
                     | Inr wm \<Rightarrow>
                         (let p = fit func xm ym wm (params s)
                          in Inr (p, calls s @ [FitCall p]))))))"

text \<open>
  The call of the finder and what follows it in the loop body: the finder's writes to
  the array it was given, the assignment of the returned mask (a new array is
  allocated at the end of the store), \<^verbatim>\<open>iter += 1\<close> and the two tests that leave the
  loop.
\<close>

definition round_find ::
  "fit_func \<Rightarrow> real list \<Rightarrow> real list \<Rightarrow> real list option \<Rightarrow> 'fs finder \<Rightarrow> param_vec \<Rightarrow>
   'fs fit_state \<Rightarrow> 'fs fit_state flow" where
  "round_find func x y w f p s =
     (let r = finder_find f (finder_state f) (iter s) x y w (heap s ! mask_ref s) (eval func x p);
          h = (heap s)[mask_ref s := mask_in_place r];
          a = (case returned_mask r of Same \<Rightarrow> mask_ref s | Fresh m \<Rightarrow> length h);
          h' = (case returned_mask r of Same \<Rightarrow> h | Fresh m \<Rightarrow> h @ [m]);
          s' = s\<lparr> iter := iter s + 1, mask_ref := a, heap := h',
                  finder := Some (f\<lparr>finder_state := finder_after r\<rparr>),
                  calls := calls s @ [FindCall (iter s) (h' ! a) (need_more_iter r)] \<rparr>
      in if \<not> need_more_iter r then Break s'
         else if int (count_true (h' ! a)) < get_min_point_count func then Break s'
         else Continue s')"

text \<open>The body of the \<^verbatim>\<open>while True\<close> loop.\<close>

definition fit_round ::
  "'fs continuum_model \<Rightarrow> fit_func \<Rightarrow> string \<Rightarrow> real list \<Rightarrow> real list \<Rightarrow> real list option \<Rightarrow>
   param_vec option \<Rightarrow> 'fs fit_state \<Rightarrow> 'fs fit_state flow" where
  "fit_round self func fid x y w p0 s =
     (case round_params self func x y w p0 s of
        Inl e \<Rightarrow> Raise e s
      | Inr (p, cs) \<Rightarrow>
          (let s1 = s\<lparr>params := Some p, calls := cs\<rparr>;
               s2 = (case trace self of
                       None \<Rightarrow> s1
                     | Some t \<Rightarrow>
                         s1\<lparr>heap := (heap s1)[mask_ref s1 :=
                               t fid (iter s1) x y w (eval func x p) (heap s1 ! mask_ref s1)]\<rparr>);
               s3 = s2\<lparr>success := True\<rparr>
           in case finder s3 of
                None \<Rightarrow> Break s3
              | Some f \<Rightarrow> round_find func x y w f p s3))"

text \<open>
  \<^verbatim>\<open>while True\<close>: the loop has no bound of its own, so it is run on fuel, one unit
  per round. \<open>Continue s\<close> as the result says that the fuel ran out with the loop
  still running, in state \<open>s\<close>.
\<close>

fun fit_loop :: "nat \<Rightarrow> ('s \<Rightarrow> 's flow) \<Rightarrow> 's \<Rightarrow> 's flow" where
  "fit_loop 0 body s = Continue s"
| "fit_loop (Suc n) body s =
     (case body s of
        Continue s' \<Rightarrow> fit_loop n body s'
      | Break s' \<Rightarrow> Break s'
      | Raise e s' \<Rightarrow> Raise e s')"

text \<open>
  What a call of \<open>fit_function\<close> comes to: it returned \<^verbatim>\<open>(success, params)\<close>, it
  raised, or it is still running when the fuel is spent. Each carries the final
  state, with the store and the log.
\<close>

datatype 'fs outcome =
    Returned "bool \<times> param_vec option" "'fs fit_state"
  | Raised error "'fs fit_state"
  | Running "'fs fit_state"

fun final_state :: "'fs outcome \<Rightarrow> 'fs fit_state" where
  "final_state (Returned r s) = s"
| "final_state (Raised e s) = s"
| "final_state (Running s) = s"

text \<open>
  The state before the loop. When the caller passes a mask, its array is at address
  0 of the store; \<^verbatim>\<open>mask.copy()\<close> and \<^verbatim>\<open>np.full_like(x, True, dtype=bool)\<close> each
  allocate a new array, whose address the variable \<^verbatim>\<open>mask\<close> then holds.
\<close>

definition fit_start ::
  "'fs continuum_model \<Rightarrow> real list \<Rightarrow> bool list option \<Rightarrow> 'fs finder option \<Rightarrow> 'fs fit_state" where
  "fit_start self x msk finder_arg =
     (let h0 = (case msk of None \<Rightarrow> [] | Some m \<Rightarrow> [m]);
          h1 = h0 @ [case msk of None \<Rightarrow> replicate (length x) True | Some m \<Rightarrow> h0 ! 0]
      in \<lparr> iter = 0, params = None, success = False, mask_ref = length h0, heap = h1,
            finder = (case finder_arg of Some f \<Rightarrow> Some f | None \<Rightarrow> continuum_finder self),
            calls = [] \<rparr>)"

text \<open>
  \<^verbatim>\<open>fit_function(id, func, x, y, w, p0, mask, continuum_finder)\<close>, run on \<open>fuel\<close>
  rounds of its loop.
\<close>

definition fit_function ::
  "'fs continuum_model \<Rightarrow> nat \<Rightarrow> string \<Rightarrow> fit_func \<Rightarrow> real list \<Rightarrow> real list \<Rightarrow> real list option \<Rightarrow>
   param_vec option \<Rightarrow> bool list option \<Rightarrow> 'fs finder option \<Rightarrow> 'fs outcome" where
  "fit_function self fuel fid func x y w p0 msk finder_arg =
     (case fit_loop fuel (fit_round self func fid x y w p0) (fit_start self x msk finder_arg) of
        Continue s \<Rightarrow> Running s
      | Raise e s \<Rightarrow> Raised e s
      | Break s \<Rightarrow>
          if success s then Returned (True, params s) s
          else Returned (False, Some (replicate (get_param_count func) NaN)) s)"

text \<open>The caller's mask array after the call, read from the store.\<close>

definition caller_mask :: "bool list option \<Rightarrow> 'fs fit_state \<Rightarrow> bool list option" where
  "caller_mask msk s = (case msk of None \<Rightarrow> None | Some m \<Rightarrow> Some (heap s ! 0))"

text \<open>The fits of a log, and the last of them.\<close>

fun fits :: "call list \<Rightarrow> param_vec list" where
  "fits [] = []"
| "fits (FitCall p # cs) = p # fits cs"
| "fits (FindCall i m b # cs) = fits cs"

definition last_fit :: "call list \<Rightarrow> param_vec option" where
  "last_fit cs = (if fits cs = [] then None else Some (last (fits cs)))"

section \<open>The flux transform\<close>

text \<open>
  \<^verbatim>\<open>x > c\<close> and \<^verbatim>\<open>x < c\<close> for a number \<open>c\<close>: element by element on an array
  (false at NaN), TypeError on a tuple.
\<close>

fun greater_than :: "pyval \<Rightarrow> real \<Rightarrow> error + bool list" where
  "greater_than (Arr xs) c = Inr (map (\<lambda>v. case v of NaN \<Rightarrow> False | Fin r \<Rightarrow> r > c) xs)"
| "greater_than (Tup vs) c = Inl TypeError"

fun less_than :: "pyval \<Rightarrow> real \<Rightarrow> error + bool list" where
  "less_than (Arr xs) c = Inr (map (\<lambda>v. case v of NaN \<Rightarrow> False | Fin r \<Rightarrow> r < c) xs)"
| "less_than (Tup vs) c = Inl TypeError"

text \<open>
  numpy's element-wise functions. \<^verbatim>\<open>np.log\<close> of a value that is not positive is
  \<open>-inf\<close> or NaN; \<open>safe_log\<close> never passes one. A quotient by zero is \<open>inf\<close> or NaN;
  \<open>safe_log_error\<close> never selects one.
\<close>

fun np_log :: "npfloat \<Rightarrow> npfloat" where
  "np_log NaN = NaN"
| "np_log (Fin r) = (if 0 < r then Fin (ln r) else NaN)"

fun np_exp :: "npfloat \<Rightarrow> npfloat" where
  "np_exp NaN = NaN"
| "np_exp (Fin r) = Fin (exp r)"

fun np_div :: "npfloat \<Rightarrow> npfloat \<Rightarrow> npfloat" where
  "np_div (Fin a) (Fin b) = (if b = 0 then NaN else Fin (a / b))"
| "np_div a b = NaN"

fun np_mul :: "npfloat \<Rightarrow> npfloat \<Rightarrow> npfloat" where
  "np_mul (Fin a) (Fin b) = Fin (a * b)"
| "np_mul a b = NaN"

text \<open>
  A binary operation on two one-dimensional arrays: element by element on equal
  lengths, an array of length one is broadcast, anything else raises ValueError.
\<close>

definition broadcast2 :: "('a \<Rightarrow> 'b \<Rightarrow> 'c) \<Rightarrow> 'a list \<Rightarrow> 'b list \<Rightarrow> error + 'c list" where
  "broadcast2 f xs ys =
     (if length xs = length ys then Inr (map2 f xs ys)
      else if length xs = 1 then Inr (map (f (hd xs)) ys)
      else if length ys = 1 then Inr (map (\<lambda>x. f x (hd ys)) xs)
      else Inl ValueError)"

text \<open>\<^verbatim>\<open>np.where(c, v, np.nan)\<close>.\<close>

definition where_nan :: "bool list \<Rightarrow> npfloat list \<Rightarrow> error + npfloat list" where
  "where_nan c v = broadcast2 (\<lambda>b e. if b then e else NaN) c v"

text \<open>\<^verbatim>\<open>safe_log(x) = np.log(np.where(x > 1e-7, x, np.nan))\<close>.\<close>

fun safe_log :: "pyval \<Rightarrow> error + npfloat list" where
  "safe_log (Arr xs) =
     (case greater_than (Arr xs) (1 / 10 ^ 7) of
        Inl e \<Rightarrow> Inl e
      | Inr c \<Rightarrow> (case where_nan c xs of Inl e \<Rightarrow> Inl e | Inr v \<Rightarrow> Inr (map np_log v)))"
| "safe_log (Tup vs) = Inl TypeError"

text \<open>
  \<^verbatim>\<open>safe_log_error(x, sigma) = np.where(x > 1e-7, sigma / x, np.nan)\<close>: the comparison
  is evaluated first, and raises on a tuple.
\<close>

fun safe_log_error :: "pyval \<Rightarrow> npfloat list \<Rightarrow> error + npfloat list" where
  "safe_log_error (Arr xs) sigma =
     (case greater_than (Arr xs) (1 / 10 ^ 7) of
        Inl e \<Rightarrow> Inl e
      | Inr c \<Rightarrow>
          (case broadcast2 np_div sigma xs of
             Inl e \<Rightarrow> Inl e
           | Inr q \<Rightarrow> where_nan c q))"
| "safe_log_error (Tup vs) sigma = Inl TypeError"

text \<open>\<^verbatim>\<open>safe_exp(x) = np.exp(np.where(x < 100, x, np.nan))\<close>.\<close>

fun safe_exp :: "pyval \<Rightarrow> error + npfloat list" where
  "safe_exp (Arr xs) =
     (case less_than (Arr xs) 100 of
        Inl e \<Rightarrow> Inl e
      | Inr c \<Rightarrow> (case where_nan c xs of Inl e \<Rightarrow> Inl e | Inr v \<Rightarrow> Inr (map np_exp v)))"
| "safe_exp (Tup vs) = Inl TypeError"

text \<open>\<^verbatim>\<open>safe_exp_error(x, sigma) = np.where(x < 100, x * sigma, np.nan)\<close>.\<close>

fun safe_exp_error :: "pyval \<Rightarrow> npfloat list \<Rightarrow> error + npfloat list" where
  "safe_exp_error (Arr xs) sigma =
     (case less_than (Arr xs) 100 of
        Inl e \<Rightarrow> Inl e
      | Inr c \<Rightarrow>
          (case broadcast2 np_mul xs sigma of
             Inl e \<Rightarrow> Inl e
           | Inr q \<Rightarrow> where_nan c q))"
| "safe_exp_error (Tup vs) sigma = Inl TypeError"

text \<open>
  \<^verbatim>\<open>transform_flux_forward(flux, flux_err)\<close>. The source's assignment is
  \<^verbatim>\<open>flux = self.safe_log(flux),\<close>
  and the comma at its end makes the right-hand side a tuple of one element: from there
  on \<open>flux\<close> is that tuple, in the call of \<open>safe_log_error\<close> and in the result.
\<close>

definition transform_flux_forward ::
  "'fs continuum_model \<Rightarrow> pyval \<Rightarrow> npfloat list option \<Rightarrow> error + (pyval \<times> npfloat list option)" where
  "transform_flux_forward self flux flux_err =
     (if use_log_flux self then
        (case safe_log flux of
           Inl e \<Rightarrow> Inl e
         | Inr lg \<Rightarrow>
             (case flux_err of
                None \<Rightarrow> Inr (Tup [Arr lg], None)
              | Some sigma \<Rightarrow>
                  (case safe_log_error (Tup [Arr lg]) sigma of
                     Inl e \<Rightarrow> Inl e
                   | Inr er \<Rightarrow> Inr (Tup [Arr lg], Some er))))
      else Inr (flux, flux_err))"

text \<open>
  \<^verbatim>\<open>transform_flux_reverse(flux, flux_err)\<close>: \<open>flux\<close> is replaced by its exponential
  before \<open>safe_exp_error\<close> reads it.
\<close>

definition transform_flux_reverse ::
  "'fs continuum_model \<Rightarrow> pyval \<Rightarrow> npfloat list option \<Rightarrow> error + (pyval \<times> npfloat list option)" where
  "transform_flux_reverse self flux flux_err =
     (if use_log_flux self then
        (case safe_exp flux of
           Inl e \<Rightarrow> Inl e
         | Inr ex \<Rightarrow>
             (case flux_err of
                None \<Rightarrow> Inr (Arr ex, None)
              | Some sigma \<Rightarrow>
                  (case safe_exp_error (Arr ex) sigma of
                     Inl e \<Rightarrow> Inl e
                   | Inr er \<Rightarrow> Inr (Arr ex, Some er))))
      else Inr (flux, flux_err))"

section \<open>Notions of the specification\<close>


text \<open>
  The intervals between consecutive limits, with \<^verbatim>\<open>None\<close> read as the first
  wavelength for a lower and as the last wavelength for an upper bound; and the
  intervals \<open>limits_to_masks\<close> keeps: all of them, or with \<open>omit_overflow\<close> those that do
  not overflow.
\<close>

fun intervals :: "real list \<Rightarrow> real option list \<Rightarrow> (real \<times> real) list" where
  "intervals wv (a # b # ls) =
     ((case a of Some v \<Rightarrow> v | None \<Rightarrow> hd wv), (case b of Some v \<Rightarrow> v | None \<Rightarrow> last wv)) #
     intervals wv (b # ls)"
| "intervals wv ls = []"

definition kept_intervals ::
  "real list \<Rightarrow> real \<times> real \<Rightarrow> bool \<Rightarrow> real option list \<Rightarrow> (real \<times> real) list" where
  "kept_intervals wv d omit ls =
     filter (\<lambda>iv. if omit then \<not> overflows wv d iv else True) (intervals wv ls)"

text \<open>
  A model as its owner configures it: the two range lists are attributes, assigned
  after construction.
\<close>

definition configured ::
  "'fs continuum_model \<Rightarrow> (real \<times> real) list option \<Rightarrow> (real \<times> real) list option \<Rightarrow>
   'fs continuum_model" where
  "configured self inc exc = self\<lparr>include_ranges := inc, exclude_ranges := exc\<rparr>"

text \<open>
  What \<open>init_wave\<close> keeps of one cache: without ranges there is no mask, and with
  ranges there is a mask as soon as there is a wavelength vector, of that vector's
  length.
\<close>

definition cache_ok ::
  "(real \<times> real) list option \<Rightarrow> bool list option \<Rightarrow> real list option \<Rightarrow> bool" where
  "cache_ok rs m wv =
     (case rs of
        None \<Rightarrow> m = None
      | Some r \<Rightarrow>
          (case wv of
             None \<Rightarrow> m = None
           | Some v \<Rightarrow> (case m of None \<Rightarrow> False | Some mk \<Rightarrow> length mk = length v)))"

definition caches_ok :: "'fs continuum_model \<Rightarrow> bool" where
  "caches_ok self =
     (cache_ok (include_ranges self) (include_mask self) (wave self) \<and>
      cache_ok (exclude_ranges self) (exclude_mask self) (wave self))"

text \<open>The state a round of the loop ends in, however it ends.\<close>

fun flow_state :: "'s flow \<Rightarrow> 's" where
  "flow_state (Continue s) = s"
| "flow_state (Break s) = s"
| "flow_state (Raise e s) = s"

text \<open>
  The frame of the loop on the store: the caller's array at address 0 holds \<open>m\<close>, and
  the variable \<^verbatim>\<open>mask\<close> refers to another, allocated array.
\<close>

definition frame :: "bool list \<Rightarrow> 'fs fit_state \<Rightarrow> bool" where
  "frame m s = (heap s ! 0 = m \<and> 0 < mask_ref s \<and> mask_ref s < length (heap s))"

text \<open>
  A call of the log at which the minimum-point floor applies: a find that asked for
  more iterations and returned a mask with fewer true points than the function needs.
\<close>

definition stopping :: "fit_func \<Rightarrow> call \<Rightarrow> bool" where
  "stopping func c =
     (case c of
        FitCall q \<Rightarrow> False
      | FindCall i m again \<Rightarrow> again \<and> int (count_true m) < get_min_point_count func)"

text \<open>
  What holds at the head of the loop: nothing is logged before the first round, and
  no call of the log is at the floor. And what holds when the loop is left by a
  \<^verbatim>\<open>break\<close>: success is set, no call but the last can be at the floor, and the
  parameters are those of the last fit of the log or, when the log has no fit, the
  caller's estimate.
\<close>

definition loop_head :: "fit_func \<Rightarrow> 'fs fit_state \<Rightarrow> bool" where
  "loop_head func s =
     ((if iter s = 0 then calls s = [] else True) \<and>
      list_all (\<lambda>c. \<not> stopping func c) (calls s))"

definition loop_exit :: "fit_func \<Rightarrow> param_vec option \<Rightarrow> 'fs fit_state \<Rightarrow> bool" where
  "loop_exit func p0 s =
     (success s \<and>
      list_all (\<lambda>c. \<not> stopping func c) (butlast (calls s)) \<and>
      (\<exists>q. params s = Some q \<and>
           (last_fit (calls s) = Some q \<or> (last_fit (calls s) = None \<and> p0 = Some q))))"

section \<open>Example inputs\<close>

text \<open>A model with \<^verbatim>\<open>use_log_flux\<close> set, no finder and no trace sink.\<close>

definition log_model :: "unit continuum_model" where
  "log_model = (ContinuumModel_init None None None None)\<lparr>use_log_flux := True\<rparr>"

text \<open>
  A function to fit with two parameters that needs two points: its fit returns the
  number of points it was given and the first parameter of the estimate it was given
  (zero without one); its model is \<open>x\<close> itself.
\<close>

definition count_func :: fit_func where
  "count_func =
     \<lparr> get_param_count = 2,
       get_min_point_count = 2,
       fit = (\<lambda>xm ym wm q. [Fin (real (length xm)), (case q of Some (v # vs) \<Rightarrow> v | _ \<Rightarrow> Fin 0)]),
       eval = (\<lambda>x q. x) \<rparr>"

text \<open>
  Three finders without a state. The first clears the first element of the mask it
  is given, in place, returns that array and asks for no more iterations. The second
  leaves the mask as it is and always asks for more. The third always asks for more
  and returns a new array: at its first call the mask without its first point, from
  then on an empty selection.
\<close>

definition stop_finder :: "unit finder" where
  "stop_finder =
     \<lparr> finder_find = (\<lambda>st i x y w m mdl.
         \<lparr> mask_in_place = m[0 := False], returned_mask = Same, need_more_iter = False,
           finder_after = () \<rparr>),
       finder_state = () \<rparr>"

definition more_finder :: "unit finder" where
  "more_finder =
     \<lparr> finder_find = (\<lambda>st i x y w m mdl.
         \<lparr> mask_in_place = m, returned_mask = Same, need_more_iter = True,
           finder_after = () \<rparr>),
       finder_state = () \<rparr>"

definition shrink_finder :: "unit finder" where
  "shrink_finder =
     \<lparr> finder_find = (\<lambda>st i x y w m mdl.
         \<lparr> mask_in_place = m,
           returned_mask = Fresh (if i = 0 then m[0 := False] else replicate (length m) False),
           need_more_iter = True, finder_after = () \<rparr>),
       finder_state = () \<rparr>"

text \<open>
  A fourth finder: it always asks for more and returns a new array that selects
  nothing.
\<close>

definition empty_finder :: "unit finder" where
  "empty_finder =
     \<lparr> finder_find = (\<lambda>st i x y w m mdl.
         \<lparr> mask_in_place = m, returned_mask = Fresh (replicate (length m) False),
           need_more_iter = True, finder_after = () \<rparr>),
       finder_state = () \<rparr>"

text \<open>
  What every round keeps when the finder in use is \<open>more_finder\<close> and the mask selects
  all of three points.
\<close>

definition more_inv :: "unit fit_state \<Rightarrow> bool" where
  "more_inv s =
     (finder s = Some more_finder \<and> heap s ! mask_ref s = [True, True, True] \<and>
      mask_ref s < length (heap s))"

section \<open>Properties of the mask builder\<close>

lemma length_range_mask: "length (range_mask wv d strict r) = length wv"
  by (simp add: range_mask_def)






section \<open>Properties of the flux transform\<close>

lemma where_nan_all:
  assumes "\<forall>v\<in>set xs. P v"
  shows "where_nan (map P xs) xs = Inr xs"
proof -
  have "map2 (\<lambda>b e. if b then e else NaN) (map P xs) xs = xs"
    using assms by (auto intro!: nth_equalityI)
  then show ?thesis
    by (simp add: where_nan_def broadcast2_def)
qed

lemma safe_log_guarded:
  assumes "\<forall>v\<in>set xs. \<exists>r. v = Fin r \<and> 1 / 10 ^ 7 < r"
  shows "safe_log (Arr xs) = Inr (map np_log xs)"
proof -
  have "\<forall>v\<in>set xs. (case v of NaN \<Rightarrow> False | Fin r \<Rightarrow> r > 1 / 10 ^ 7)"
    using assms by auto
  then have "where_nan (map (\<lambda>v. case v of NaN \<Rightarrow> False | Fin r \<Rightarrow> r > 1 / 10 ^ 7) xs) xs = Inr xs"
    by (rule where_nan_all)
  then show ?thesis
    by (simp only: safe_log.simps greater_than.simps sum.case)
qed

lemma safe_exp_guarded:
  assumes "\<forall>v\<in>set ys. \<exists>r. v = Fin r \<and> r < 100"
  shows "safe_exp (Arr ys) = Inr (map np_exp ys)"
proof -
  have "\<forall>v\<in>set ys. (case v of NaN \<Rightarrow> False | Fin r \<Rightarrow> r < 100)"
    using assms by auto
  then have "where_nan (map (\<lambda>v. case v of NaN \<Rightarrow> False | Fin r \<Rightarrow> r < 100) ys) ys = Inr ys"
    by (rule where_nan_all)
  then show ?thesis
    by (simp only: safe_exp.simps less_than.simps sum.case)
qed

text \<open>
  What the two guarded functions do on arrays: over the reals, \<open>safe_exp\<close> undoes
  \<open>safe_log\<close> on every array whose elements exceed \<open>1e-7\<close> and have a logarithm
  below 100.
\<close>

lemma safe_exp_safe_log:
  assumes "\<forall>v\<in>set xs. \<exists>r. v = Fin r \<and> 1 / 10 ^ 7 < r \<and> ln r < 100"
  shows "\<exists>lg. safe_log (Arr xs) = Inr lg \<and> safe_exp (Arr lg) = Inr xs"
proof -
  have 1: "safe_log (Arr xs) = Inr (map np_log xs)"
    using assms by (intro safe_log_guarded) blast
  have g: "\<forall>v\<in>set (map np_log xs). \<exists>r. v = Fin r \<and> r < 100"
  proof
    fix v assume "v \<in> set (map np_log xs)"
    then obtain u where u: "u \<in> set xs" "v = np_log u" by auto
    then obtain r where r: "u = Fin r" "1 / 10 ^ 7 < r" "ln r < 100" using assms by blast
    from r(2) have "0 < r" by (smt (verit) divide_pos_pos zero_less_power)
    with u r show "\<exists>r. v = Fin r \<and> r < 100" by simp
  qed
  have e: "map np_exp (map np_log xs) = xs"
  proof (rule nth_equalityI)
    show "length (map np_exp (map np_log xs)) = length xs" by simp
  next
    fix i assume "i < length (map np_exp (map np_log xs))"
    then have i: "i < length xs" by simp
    then obtain r where r: "xs ! i = Fin r" "1 / 10 ^ 7 < r" using assms nth_mem by blast
    from r(2) have "0 < r" by (smt (verit) divide_pos_pos zero_less_power)
    with r i show "map np_exp (map np_log xs) ! i = xs ! i" by simp
  qed
  show ?thesis using 1 safe_exp_guarded[OF g] e by simp
qed

text \<open>
  C4 (the code departs from the claim). In log mode \<open>transform_flux_forward\<close> returns
  the array of logarithms wrapped in a tuple of one element, and
  \<open>transform_flux_reverse\<close> raises TypeError on that result: the flux is not
  reconstructed, for any flux array.
\<close>

theorem transform_flux_round_trip_raises:
  assumes "use_log_flux self"
  shows "\<exists>lg. transform_flux_forward self (Arr xs) None = Inr (Tup [Arr lg], None) \<and>
              transform_flux_reverse self (Tup [Arr lg]) None = Inl TypeError"
proof -
  have "\<exists>v. where_nan (map (\<lambda>v. case v of NaN \<Rightarrow> False | Fin r \<Rightarrow> r > 1 / 10 ^ 7) xs) xs = Inr v"
    by (simp add: where_nan_def broadcast2_def)
  then obtain v where
    "where_nan (map (\<lambda>v. case v of NaN \<Rightarrow> False | Fin r \<Rightarrow> r > 1 / 10 ^ 7) xs) xs = Inr v" ..
  then have "safe_log (Arr xs) = Inr (map np_log v)"
    by (simp only: safe_log.simps greater_than.simps sum.case)
  then show ?thesis
    using assms by (simp add: transform_flux_forward_def transform_flux_reverse_def)
qed

theorem transform_flux_round_trip_raises_witness:
  "use_log_flux log_model \<and>
   transform_flux_forward log_model (Arr [Fin 1]) None = Inr (Tup [Arr [Fin 0]], None) \<and>
   transform_flux_reverse log_model (Tup [Arr [Fin 0]]) None = Inl TypeError"
  using transform_flux_round_trip_raises [of log_model "[Fin 1]"]
  by (simp add: log_model_def ContinuumModel_init_def transform_flux_forward_def
        transform_flux_reverse_def where_nan_def broadcast2_def)

text \<open>
  C5 (the code departs from the claim). In log mode \<open>transform_flux_forward\<close> with a
  flux uncertainty raises TypeError: \<open>safe_log_error\<close> is called on the tuple that
  holds the logarithms, not on the original flux, and never divides.
\<close>

theorem transform_flux_forward_error_raises:
  assumes "use_log_flux self"
  shows "transform_flux_forward self (Arr xs) (Some sigma) = Inl TypeError"
  using assms by (simp add: transform_flux_forward_def where_nan_def broadcast2_def)

theorem transform_flux_forward_error_raises_witness:
  "use_log_flux log_model \<and>
   transform_flux_forward log_model (Arr [Fin 2]) (Some [Fin (1 / 2)]) = Inl TypeError"
  using transform_flux_forward_error_raises [of log_model "[Fin 2]" "[Fin (1 / 2)]"]
  by (simp add: log_model_def ContinuumModel_init_def)

section \<open>Properties of the interval masks\<close>

lemma length_intervals: "length (intervals wv ls) = length ls - 1"
  by (induction wv ls rule: intervals.induct) auto

lemma enumerate_filter_length:
  "length (filter (\<lambda>(j, r). P r) (List.enumerate n rs)) = length (filter P rs)"
  by (induction rs arbitrary: n) auto

text \<open>
  The loop of \<open>limits_to_masks\<close> from any index and any accumulators, without an input
  mask: a mask and a range are appended for each kept interval, an index for each
  overflowing one.
\<close>

lemma limits_loop_result:
  assumes "wv \<noteq> []"
  shows "limits_loop wv None d strict omit i ls masks ranges ov =
     Inr (masks @ map (range_mask wv d strict) (kept_intervals wv d omit ls),
          ranges @ map (\<lambda>iv. actual_range wv (range_mask wv d strict iv)) (kept_intervals wv d omit ls),
          ov @ map fst (filter (\<lambda>(j, iv). overflows wv d iv) (List.enumerate i (intervals wv ls))))"
  using assms
proof (induction wv ls arbitrary: i masks ranges ov rule: intervals.induct)
  case (1 wv a b ls)
  then show ?case
    by (cases omit) (simp_all add: kept_intervals_def Let_def)
qed (simp_all add: kept_intervals_def)

text \<open>
  C7, as the code has it. On a non-empty wavelength vector and \<open>N\<close> limits,
  \<open>limits_to_masks\<close> returns one mask for each interval it keeps, in order: the number
  of masks and the number of overflow indices add up to \<open>N - 1\<close> when \<open>omit_overflow\<close>
  is set, and the number of masks is \<open>N - 1\<close> when it is not. Each mask comes with the
  pair of the first and the last wavelength it selects, or \<open>(NaN, NaN)\<close> when it
  selects none.
\<close>

theorem limits_to_masks_count:
  assumes "wv \<noteq> []"
  shows "\<exists>masks ranges overflow.
     limits_to_masks wv limits None dl strict omit_overflow = Inr (masks, ranges, overflow) \<and>
     masks = map (range_mask wv (dlambda_pair dl) strict)
               (kept_intervals wv (dlambda_pair dl) omit_overflow limits) \<and>
     length masks + (if omit_overflow then length overflow else 0) = length limits - 1 \<and>
     length ranges = length masks \<and>
     (\<forall>j<length masks.
        ranges ! j = (if select wv (masks ! j) = [] then (NaN, NaN)
                      else (Fin (hd (select wv (masks ! j))), Fin (last (select wv (masks ! j))))))"
proof -
  let ?d = "dlambda_pair dl"
  let ?P = "overflows wv ?d"
  have split: "length (filter (\<lambda>iv. \<not> ?P iv) (intervals wv limits)) + length (filter ?P (intervals wv limits))
      = length limits - 1"
    using sum_length_filter_compl[of ?P "intervals wv limits"] by (simp add: length_intervals add.commute)
  show ?thesis
    using assms split
    by (auto simp add: limits_to_masks_def limits_loop_result kept_intervals_def enumerate_filter_length
          length_intervals actual_range_def Let_def)
qed

text \<open>Three limits on the wavelengths 100 and 200, nothing omitted: two masks.\<close>

theorem limits_to_masks_count_witness:
  "[100, 200] \<noteq> ([] :: real list) \<and>
   limits_to_masks [100, 200] [Some 50, Some 150, None] None (Scalar 0) False False =
     Inr ([[True, False], [False, True]], [(Fin 100, Fin 100), (Fin 200, Fin 200)], [0])"
  using limits_to_masks_count [of "[100, 200]" "[Some 50, Some 150, None]" "Scalar 0" False False]
  by (simp add: limits_to_masks_def overflows_def range_mask_def lessthan_def actual_range_def
        select_def)

text \<open>
  The same call with \<open>omit_overflow\<close>: the interval from 50 to 150 starts below the
  first wavelength and is left out, so three limits give one mask, not two.
\<close>

theorem limits_to_masks_count_counterexample:
  "\<not> (\<exists>masks ranges overflow.
        limits_to_masks [100, 200] [Some 50, Some 150, None] None (Scalar 0) False True =
          Inr (masks, ranges, overflow) \<and>
        length masks = length [Some 50, Some 150, None :: real option] - 1)"
  by (simp add: limits_to_masks_def overflows_def range_mask_def lessthan_def actual_range_def
        select_def)

section \<open>Properties of the cached masks\<close>

lemma ranges_loop_length:
  "ranges_loop wv d strict omit i rs m0 ov0 = Inr (m, ov) \<Longrightarrow> length m0 = length wv \<Longrightarrow>
   length m = length wv"
proof (induction rs arbitrary: i m0 ov0)
  case Nil
  then show ?case by simp
next
  case (Cons r rs)
  then show ?case
    by (auto simp add: length_range_mask split: if_splits)
qed

lemma and_mask_length: "and_mask m mk = Inr m' \<Longrightarrow> length m' = length m"
  by (auto simp add: and_mask_def split: if_splits)

lemma ranges_to_mask_length:
  "ranges_to_mask wv ranges msk dl strict omit = Inr (m, ov) \<Longrightarrow> length m = length wv"
  by (auto simp add: ranges_to_mask_def split: sum.splits option.splits
        dest!: ranges_loop_length and_mask_length)

text \<open>One call of \<open>init_wave\<close> that returns keeps the caches in order and the ranges as they are.\<close>

lemma init_wave_caches_ok:
  assumes "caches_ok self" "init_wave self wv force omit = Inr self'"
  shows "caches_ok self' \<and> include_ranges self' = include_ranges self \<and>
         exclude_ranges self' = exclude_ranges self"
  using assms
  by (auto simp add: init_wave_def caches_ok_def cache_ok_def Let_def
      split: option.splits sum.splits if_splits prod.splits dest: ranges_to_mask_length)

lemma init_wave_calls_caches_ok:
  assumes "caches_ok self" "init_wave_calls self cs = Inr self'"
  shows "caches_ok self'"
  using assms
proof (induction cs arbitrary: self)
  case Nil
  then show ?case by simp
next
  case (Cons c cs)
  obtain wv force omit where c: "c = (wv, force, omit)" by (cases c)
  from Cons.prems(2) c obtain s1 where s1: "init_wave self wv force omit = Inr s1"
    and rest: "init_wave_calls s1 cs = Inr self'"
    by (auto split: sum.splits)
  from init_wave_caches_ok[OF Cons.prems(1) s1] have "caches_ok s1" by simp
  then show ?case using Cons.IH rest by blast
qed

lemma caches_ok_masks_match: "caches_ok self \<Longrightarrow> masks_match_wave self"
  by (auto simp add: caches_ok_def cache_ok_def masks_match_wave_def mask_fits_def
        split: option.splits)

lemma new_model_caches_ok: "caches_ok (configured (ContinuumModel_init f mi t None) inc exc)"
  by (simp add: caches_ok_def cache_ok_def configured_def ContinuumModel_init_def
        split: option.splits)

lemma copied_model_caches_ok:
  "caches_ok original \<Longrightarrow> caches_ok (ContinuumModel_init f mi t (Some original))"
  by (simp add: caches_ok_def ContinuumModel_init_def)

text \<open>
  C6, as the code has it. Every mask that \<open>ranges_to_mask\<close> returns has the length of
  the wavelength vector. The caches of an instance are in order (\<open>caches_ok\<close>) when,
  for the include and for the exclude ranges alike, either no ranges are set and no
  mask is cached, or ranges are set and a mask is cached exactly when a wavelength
  vector is, the two of one length. A new instance whose ranges are assigned before
  its first \<open>init_wave\<close> has its caches in order; so has a copy of an instance that
  has; and any sequence of \<open>init_wave\<close> calls that return (any wavelength vectors, any
  \<open>force\<close> and \<open>omit_overflow\<close> flags, no assignment of ranges in between) takes an
  instance with its caches in order to one with its caches in order, where each cached
  mask has the length of the cached wavelength vector.
\<close>

theorem cached_masks_match_wave:
  "(ranges_to_mask wv ranges msk dl strict omit = Inr (m, ov) \<longrightarrow> length m = length wv) \<and>
   caches_ok (configured (ContinuumModel_init f mi t None) inc exc) \<and>
   (caches_ok original \<longrightarrow> caches_ok (ContinuumModel_init f mi t (Some original))) \<and>
   (caches_ok self \<and> init_wave_calls self cs = Inr self' \<longrightarrow>
      caches_ok self' \<and> masks_match_wave self')"
proof (intro conjI impI)
  assume "ranges_to_mask wv ranges msk dl strict omit = Inr (m, ov)"
  then show "length m = length wv" by (rule ranges_to_mask_length)
next
  show "caches_ok (configured (ContinuumModel_init f mi t None) inc exc)"
    by (rule new_model_caches_ok)
next
  assume "caches_ok original"
  then show "caches_ok (ContinuumModel_init f mi t (Some original))"
    by (rule copied_model_caches_ok)
next
  assume a: "caches_ok self \<and> init_wave_calls self cs = Inr self'"
  then show "caches_ok self'" using init_wave_calls_caches_ok by blast
  then show "masks_match_wave self'" by (rule caches_ok_masks_match)
qed

text \<open>
  A copy of a new model with one include range, and three calls on it: the second,
  not forced and with a shorter vector, changes nothing; the third, forced, replaces
  vector and mask.
\<close>

theorem cached_masks_match_wave_witness:
  "ranges_to_mask [1, 2, 3] [(1, 2)] None (Scalar 0) False False = Inr ([True, True, False], []) \<and>
   length [True, True, False] = length [1, 2, 3 :: real] \<and>
   caches_ok (configured (ContinuumModel_init None None None None :: unit continuum_model)
                (Some [(1, 2)]) None) \<and>
   caches_ok (ContinuumModel_init None None None
                (Some (configured (ContinuumModel_init None None None None :: unit continuum_model)
                         (Some [(1, 2)]) None))) \<and>
   (\<exists>s. init_wave_calls
          (ContinuumModel_init None None None
             (Some (configured (ContinuumModel_init None None None None :: unit continuum_model)
                      (Some [(1, 2)]) None)))
          [([1, 2, 3], False, False), ([1, 2], False, True), ([5, 6], True, False)] = Inr s \<and>
        wave s = Some [5, 6] \<and> include_mask s = Some [False, False] \<and>
        caches_ok s \<and> masks_match_wave s)"
  using cached_masks_match_wave
    [where wv = "[1, 2, 3]" and ranges = "[(1, 2)]" and msk = None and dl = "Scalar 0"
       and strict = False and omit = False and m = "[True, True, False]" and ov = "[]"
       and f = "None :: unit finder option" and mi = None and t = None
       and inc = "Some [(1, 2)]" and exc = None
       and original = "configured (ContinuumModel_init None None None None) (Some [(1, 2)]) None"
       and self = "ContinuumModel_init None None None
             (Some (configured (ContinuumModel_init None None None None) (Some [(1, 2)]) None))"
       and cs = "[([1, 2, 3], False, False), ([1, 2], False, True), ([5, 6], True, False)]"]
  by (simp add: init_wave_def configured_def ContinuumModel_init_def ranges_to_mask_def
        overflows_def range_mask_def lessthan_def masks_match_wave_def mask_fits_def
        caches_ok_def cache_ok_def)

text \<open>
  Ranges assigned after a wavelength vector is cached: a call of \<open>init_wave\<close> that is
  not forced keeps the cached vector of three wavelengths and caches a mask computed
  from the two wavelengths passed in.
\<close>

theorem cached_masks_match_wave_counterexample:
  "\<exists>s1 s2.
     init_wave (ContinuumModel_init None None None None :: unit continuum_model) [1, 2, 3] True False = Inr s1 \<and>
     init_wave (s1\<lparr>include_ranges := Some [(1, 2)]\<rparr>) [1, 2] False False = Inr s2 \<and>
     wave s2 = Some [1, 2, 3] \<and> include_mask s2 = Some [True, True] \<and> \<not> masks_match_wave s2"
  by (simp add: init_wave_def ContinuumModel_init_def ranges_to_mask_def overflows_def range_mask_def
        lessthan_def masks_match_wave_def mask_fits_def)

section \<open>Properties of the iterative fit\<close>

subsection \<open>The caller's mask\<close>

lemma round_find_frame:
  assumes "frame m s"
  shows "frame m (flow_state (round_find func x y w f p s))"
  using assms
  by (auto simp add: round_find_def frame_def Let_def nth_append split: returned.splits)

lemma fit_round_frame:
  assumes "frame m s"
  shows "frame m (flow_state (fit_round self func fid x y w p0 s))"
proof (cases "round_params self func x y w p0 s")
  case (Inl e)
  then show ?thesis using assms by (simp add: fit_round_def)
next
  case (Inr pc)
  obtain p cs where pc: "pc = (p, cs)" by (cases pc)
  define s3 where "s3 = (case trace self of
                       None \<Rightarrow> s\<lparr>params := Some p, calls := cs\<rparr>
                     | Some t \<Rightarrow>
                         s\<lparr>params := Some p, calls := cs, heap := (heap s)[mask_ref s :=
                               t fid (iter s) x y w (eval func x p) (heap s ! mask_ref s)]\<rparr>)\<lparr>success := True\<rparr>"
  have f3: "frame m s3"
    using assms by (auto simp add: s3_def frame_def split: option.splits)
  have "fit_round self func fid x y w p0 s =
        (case finder s3 of None \<Rightarrow> Break s3 | Some f \<Rightarrow> round_find func x y w f p s3)"
    using Inr pc by (simp add: fit_round_def s3_def Let_def split: option.splits)
  then show ?thesis
    using f3 round_find_frame[OF f3] by (simp split: option.splits)
qed

text \<open>What every round keeps, the loop keeps, however far it runs and however it ends.\<close>

lemma fit_loop_invariant:
  assumes "\<And>s. P s \<Longrightarrow> P (flow_state (body s))" "P s"
  shows "P (flow_state (fit_loop n body s))"
  using assms(2)
proof (induction n arbitrary: s)
  case 0
  then show ?case by simp
next
  case (Suc n)
  from assms(1)[OF Suc.prems] have b: "P (flow_state (body s))" .
  show ?case
  proof (cases "body s")
    case (Continue s')
    then show ?thesis using b Suc.IH by simp
  next
    case (Break s')
    then show ?thesis using b by simp
  next
    case (Raise e s')
    then show ?thesis using b by simp
  qed
qed

lemma final_state_flow:
  "final_state (fit_function self fuel fid func x y w p0 msk finder_arg) =
   flow_state (fit_loop fuel (fit_round self func fid x y w p0) (fit_start self x msk finder_arg))"
  by (simp add: fit_function_def split: flow.splits)

text \<open>
  C10. Whatever the collaborators write through the references they are given, and
  whether the call has returned, raised or is still running after any number of
  rounds, the caller's mask array holds what it held before the call.
\<close>

theorem fit_function_keeps_caller_mask:
  "caller_mask msk (final_state (fit_function self fuel fid func x y w p0 msk finder_arg)) = msk"
proof (cases msk)
  case None
  then show ?thesis by (simp add: caller_mask_def)
next
  case (Some m)
  have "frame m (fit_start self x msk finder_arg)"
    using Some by (simp add: frame_def fit_start_def)
  then have "frame m (flow_state (fit_loop fuel (fit_round self func fid x y w p0)
                                    (fit_start self x msk finder_arg)))"
    by (rule fit_loop_invariant[rotated]) (rule fit_round_frame)
  then show ?thesis
    using Some by (simp add: final_state_flow caller_mask_def frame_def)
qed

text \<open>
  A finder that clears the first element of the mask it is given: the write lands in
  the copy, at address 1 of the store.
\<close>

theorem fit_function_keeps_caller_mask_witness:
  "caller_mask (Some [True, True, False])
     (final_state (fit_function (ContinuumModel_init None None None None) 3 ''a'' count_func
        [1, 2, 3] [4, 5, 6] None None (Some [True, True, False]) (Some stop_finder)))
     = Some [True, True, False] \<and>
   heap (final_state (fit_function (ContinuumModel_init None None None None) 3 ''a'' count_func
        [1, 2, 3] [4, 5, 6] None None (Some [True, True, False]) (Some stop_finder)))
     = [[True, True, False], [False, True, False]]"
  using fit_function_keeps_caller_mask
    [of "Some [True, True, False]" "ContinuumModel_init None None None None" 3 "''a''" count_func
        "[1, 2, 3]" "[4, 5, 6]" None None "Some stop_finder"]
  by (simp add: fit_function_def fit_start_def fit_round_def round_params_def round_find_def
        initial_estimate_def ContinuumModel_init_def count_func_def stop_finder_def
        bool_index_def select_def count_true_def Let_def numeral_3_eq_3)

subsection \<open>The rounds of the loop\<close>

lemma fits_append: "fits (cs @ ds) = fits cs @ fits ds"
  by (induction cs rule: fits.induct) auto

lemma round_find_stop:
  assumes "\<not> need_more_iter (finder_find f (finder_state f) (iter s) x y w (heap s ! mask_ref s) (eval func x p))"
  shows "\<exists>s'. round_find func x y w f p s = Break s' \<and> success s' = success s \<and>
              params s' = params s \<and> fits (calls s') = fits (calls s)"
  using assms by (simp add: round_find_def Let_def fits_append)

lemma fit_round_unfold:
  assumes "round_params self func x y w p0 s = Inr (p, cs)" "finder s = Some f"
  shows "fit_round self func fid x y w p0 s =
         round_find func x y w f p
           (s\<lparr>params := Some p, calls := cs,
               heap := (case trace self of
                          None \<Rightarrow> heap s
                        | Some t \<Rightarrow> (heap s)[mask_ref s :=
                               t fid (iter s) x y w (eval func x p) (heap s ! mask_ref s)]),
               success := True\<rparr>)"
proof (cases "trace self")
  case None
  then show ?thesis using assms by (simp add: fit_round_def)
next
  case (Some t)
  then show ?thesis using assms by (simp add: fit_round_def)
qed

lemma round_params_reuse:
  assumes "initial_estimate self p0 (iter s) = Some q"
  shows "round_params self func x y w p0 s = Inr (q, calls s)"
  using assms by (simp add: round_params_def)

lemma round_params_fit:
  assumes "initial_estimate self p0 (iter s) = None"
    and "length (heap s ! mask_ref s) = length x" "length y = length x"
    and "\<forall>wv. w = Some wv \<longrightarrow> length wv = length x"
  shows "round_params self func x y w p0 s =
     Inr (fit func (select x (heap s ! mask_ref s)) (select y (heap s ! mask_ref s))
            (map_option (\<lambda>wv. select wv (heap s ! mask_ref s)) w) (params s),
          calls s @ [FitCall (fit func (select x (heap s ! mask_ref s)) (select y (heap s ! mask_ref s))
            (map_option (\<lambda>wv. select wv (heap s ! mask_ref s)) w) (params s))])"
proof (cases w)
  case None
  then show ?thesis
    using assms(1,2,3) by (simp add: round_params_def bool_index_def Let_def)
next
  case (Some wv)
  then have "length wv = length x" using assms(4) by simp
  then show ?thesis
    using Some assms(1,2,3) by (simp add: round_params_def bool_index_def Let_def)
qed

lemma fit_start_fields:
  "iter (fit_start self x msk finder_arg) = 0"
  "params (fit_start self x msk finder_arg) = None"
  "success (fit_start self x msk finder_arg) = False"
  "calls (fit_start self x msk finder_arg) = []"
  "finder (fit_start self x msk finder_arg) =
     (case finder_arg of Some g \<Rightarrow> Some g | None \<Rightarrow> continuum_finder self)"
  "heap (fit_start self x msk finder_arg) ! mask_ref (fit_start self x msk finder_arg) =
     (case msk of None \<Rightarrow> replicate (length x) True | Some m \<Rightarrow> m)"
  "mask_ref (fit_start self x msk finder_arg) < length (heap (fit_start self x msk finder_arg))"
  by (simp_all add: fit_start_def Let_def split: option.splits)

text \<open>
  C2, as the code has it. With a finder in use whose first \<open>find\<close> (on the initial
  mask and the model of the first round's parameters) answers that no more iterations
  are needed, and arrays of matching lengths, \<open>fit_function\<close> stops after its first
  round: it has called \<open>fit\<close> exactly once, on the initial mask, or not at all when
  the first round took the caller's estimate \<open>p0\<close> in place of a fit (an estimate is
  given and the model has a finder of its own). The finder's updated mask is not
  fitted again.
\<close>

theorem first_find_stops:
  assumes len: "length y = length x" "\<forall>wv. w = Some wv \<longrightarrow> length wv = length x"
               "\<forall>m. msk = Some m \<longrightarrow> length m = length x"
    and fnd: "(case finder_arg of Some g \<Rightarrow> Some g | None \<Rightarrow> continuum_finder self) = Some f"
    and m0: "m0 = (case msk of None \<Rightarrow> replicate (length x) True | Some m \<Rightarrow> m)"
    and p: "p = (case initial_estimate self p0 0 of
                   Some q \<Rightarrow> q
                 | None \<Rightarrow> fit func (select x m0) (select y m0) (map_option (\<lambda>wv. select wv m0) w) None)"
    and m1: "m1 = (case trace self of None \<Rightarrow> m0 | Some t \<Rightarrow> t fid 0 x y w (eval func x p) m0)"
    and stop: "\<not> need_more_iter (finder_find f (finder_state f) 0 x y w m1 (eval func x p))"
  shows "\<exists>r s. fit_function self (Suc n) fid func x y w p0 msk finder_arg = Returned r s \<and>
             fits (calls s) = (if initial_estimate self p0 0 = None then [p] else []) \<and>
             length (fits (calls s)) = (if p0 \<noteq> None \<and> continuum_finder self \<noteq> None then 0 else 1)"
proof -
  define s0 where "s0 = fit_start self x msk finder_arg"
  note sf = fit_start_fields[of self x msk finder_arg, folded s0_def]
  have hm: "heap s0 ! mask_ref s0 = m0" using sf(6) m0 by simp
  have l0: "length m0 = length x"
    using len(3) by (cases msk) (simp_all add: m0)
  define cs where "cs = (if initial_estimate self p0 0 = None then [FitCall p] else [])"
  have rp: "round_params self func x y w p0 s0 = Inr (p, cs)"
  proof (cases "initial_estimate self p0 0")
    case None
    then have "initial_estimate self p0 (iter s0) = None" using sf(1) by simp
    from round_params_fit[OF this, of x y w func] hm l0 len(1,2) sf(2,4) None
    show ?thesis by (simp add: p cs_def)
  next
    case (Some q)
    then have "initial_estimate self p0 (iter s0) = Some q" using sf(1) by simp
    from round_params_reuse[OF this, of func x y w] Some sf(4)
    show ?thesis by (simp add: p cs_def)
  qed
  define s3 where "s3 = s0\<lparr>params := Some p, calls := cs,
               heap := (case trace self of
                          None \<Rightarrow> heap s0
                        | Some t \<Rightarrow> (heap s0)[mask_ref s0 :=
                               t fid (iter s0) x y w (eval func x p) (heap s0 ! mask_ref s0)]),
               success := True\<rparr>"
  have fr: "fit_round self func fid x y w p0 s0 = round_find func x y w f p s3"
    using fit_round_unfold[OF rp, of f fid] sf(5) fnd by (simp add: s3_def)
  have s3f: "iter s3 = 0" "heap s3 ! mask_ref s3 = m1" "success s3 = True" "params s3 = Some p"
            "calls s3 = cs"
    using sf(1,7) hm by (simp_all add: s3_def m1 split: option.splits)
  from round_find_stop[of f s3 x y w func p] stop s3f
  obtain s' where s': "round_find func x y w f p s3 = Break s'" "success s' = True"
      "params s' = Some p" "fits (calls s') = fits cs"
    by auto
  have "fit_loop (Suc n) (fit_round self func fid x y w p0) s0 = Break s'"
    using fr s'(1) by simp
  then have "fit_function self (Suc n) fid func x y w p0 msk finder_arg = Returned (True, Some p) s'"
    using s'(2,3) by (simp add: fit_function_def s0_def)
  moreover have "fits (calls s') = (if initial_estimate self p0 0 = None then [p] else [])"
    using s'(4) by (simp add: cs_def)
  moreover have "(initial_estimate self p0 0 = None) = (\<not> (p0 \<noteq> None \<and> continuum_finder self \<noteq> None))"
    by (auto simp add: initial_estimate_def)
  ultimately show ?thesis by auto
qed

text \<open>Without an estimate: the one fit is on all three points.\<close>


theorem first_find_stops_witness:
  "\<exists>r s. fit_function (ContinuumModel_init (Some stop_finder) None None None) (Suc 0) ''a'' count_func
          [1, 2, 3] [4, 5, 6] None None None None = Returned r s \<and>
        fits (calls s) = [[Fin 3, Fin 0]] \<and> length (fits (calls s)) = 1"
  using first_find_stops
    [where self = "ContinuumModel_init (Some stop_finder) None None None" and n = 0 and fid = "''a''"
       and func = count_func and x = "[1, 2, 3]" and y = "[4, 5, 6]" and w = None and ?p0.0 = None
       and msk = None and finder_arg = None and f = stop_finder and ?m0.0 = "[True, True, True]"
       and p = "[Fin 3, Fin 0]" and ?m1.0 = "[True, True, True]"]
  by (simp add: ContinuumModel_init_def initial_estimate_def count_func_def stop_finder_def
        select_def)

text \<open>
  The finder that stops at its first call: one fit without an estimate, none with an
  estimate, where the claim counts two and one.
\<close>

theorem first_find_stops_counterexample:
  "(\<exists>s. fit_function (ContinuumModel_init (Some stop_finder) None None None) 3 ''a'' count_func
          [1, 2, 3] [4, 5, 6] None None None None = Returned (True, Some [Fin 3, Fin 0]) s \<and>
        fits (calls s) = [[Fin 3, Fin 0]] \<and> length (fits (calls s)) \<noteq> 2) \<and>
   (\<exists>s. fit_function (ContinuumModel_init (Some stop_finder) None None None) 3 ''a'' count_func
          [1, 2, 3] [4, 5, 6] None (Some [Fin 7, Fin 8]) None None = Returned (True, Some [Fin 7, Fin 8]) s \<and>
        fits (calls s) = [] \<and> length (fits (calls s)) \<noteq> 1)"
  by (simp add: fit_function_def fit_start_def fit_round_def round_params_def round_find_def
        initial_estimate_def ContinuumModel_init_def count_func_def stop_finder_def
        bool_index_def select_def count_true_def Let_def numeral_3_eq_3)

text \<open>
  C3 (the code departs from the claim). The model has a finder, the caller gives an
  estimate and a mask, and the finder stops at its first call: \<open>fit_function\<close> returns
  success with the estimate, and the log holds the find and no fit.
\<close>

theorem fit_function_success_without_fit:
  "\<exists>s. fit_function (ContinuumModel_init (Some stop_finder) None None None) 1 ''a'' count_func
          [1, 2, 3] [4, 5, 6] None (Some [Fin 7, Fin 8]) (Some [True, True, False]) None =
          Returned (True, Some [Fin 7, Fin 8]) s \<and>
        calls s = [FindCall 0 [False, True, False] False] \<and> fits (calls s) = []"
  by (simp add: fit_function_def fit_start_def fit_round_def round_params_def round_find_def
        initial_estimate_def ContinuumModel_init_def count_func_def stop_finder_def
        bool_index_def select_def count_true_def Let_def)

subsection \<open>Leaving the loop\<close>

lemma last_fit_snoc_fit: "last_fit (cs @ [FitCall p]) = Some p"
  by (simp add: last_fit_def fits_append)

lemma last_fit_snoc_find: "last_fit (cs @ [FindCall i m b]) = last_fit cs"
  by (simp add: last_fit_def fits_append)

lemma list_all_butlast: "list_all P xs \<Longrightarrow> list_all P (butlast xs)"
  by (auto simp add: list_all_iff dest: in_set_butlastD)

text \<open>The two ways the parameters of a round come about, and what each logs.\<close>

lemma round_params_cases:
  assumes "round_params self func x y w p0 s = Inr (p, cs)"
  shows "(initial_estimate self p0 (iter s) = Some p \<and> cs = calls s) \<or>
         (initial_estimate self p0 (iter s) = None \<and> cs = calls s @ [FitCall p])"
proof (cases "initial_estimate self p0 (iter s)")
  case None
  then show ?thesis
    using assms
    by (auto simp add: round_params_def Let_def split: sum.splits option.splits)
next
  case (Some q)
  then show ?thesis using assms by (simp add: round_params_def)
qed

text \<open>What a call of the finder leaves, and which way the loop goes after it.\<close>

lemma round_find_cases:
  "\<exists>s' mm again.
     calls s' = calls s @ [FindCall (iter s) mm again] \<and> params s' = params s \<and>
     success s' = success s \<and> iter s' = Suc (iter s) \<and>
     round_find func x y w f p s =
       (if again \<and> \<not> int (count_true mm) < get_min_point_count func then Continue s' else Break s')"
proof -
  define r where "r = finder_find f (finder_state f) (iter s) x y w (heap s ! mask_ref s) (eval func x p)"
  define h where "h = (heap s)[mask_ref s := mask_in_place r]"
  define a where "a = (case returned_mask r of Same \<Rightarrow> mask_ref s | Fresh m \<Rightarrow> length h)"
  define h' where "h' = (case returned_mask r of Same \<Rightarrow> h | Fresh m \<Rightarrow> h @ [m])"
  define s' where "s' = s\<lparr> iter := iter s + 1, mask_ref := a, heap := h',
                  finder := Some (f\<lparr>finder_state := finder_after r\<rparr>),
                  calls := calls s @ [FindCall (iter s) (h' ! a) (need_more_iter r)] \<rparr>"
  have run: "round_find func x y w f p s =
      (if \<not> need_more_iter r then Break s'
       else if int (count_true (h' ! a)) < get_min_point_count func then Break s'
       else Continue s')"
    unfolding round_find_def Let_def r_def h_def a_def h'_def s'_def by (rule refl)
  have fields: "calls s' = calls s @ [FindCall (iter s) (h' ! a) (need_more_iter r)]"
    "params s' = params s" "success s' = success s" "iter s' = Suc (iter s)"
    by (simp_all add: s'_def)
  have "round_find func x y w f p s =
       (if need_more_iter r \<and> \<not> int (count_true (h' ! a)) < get_min_point_count func
        then Continue s' else Break s')"
    using run by simp
  with fields show ?thesis by blast
qed

text \<open>One round, from the head of the loop: to the head again, or out.\<close>

lemma fit_round_cases:
  assumes "loop_head func s"
  shows "case fit_round self func fid x y w p0 s of
           Continue s' \<Rightarrow> loop_head func s'
         | Break s' \<Rightarrow> loop_exit func p0 s'
         | Raise e s' \<Rightarrow> loop_head func s'"
proof (cases "round_params self func x y w p0 s")
  case (Inl e)
  then show ?thesis using assms by (simp add: fit_round_def)
next
  case (Inr pc)
  obtain p cs where pc: "pc = (p, cs)" by (cases pc)
  define s3 where "s3 = (case trace self of
                       None \<Rightarrow> s\<lparr>params := Some p, calls := cs\<rparr>
                     | Some t \<Rightarrow>
                         s\<lparr>params := Some p, calls := cs, heap := (heap s)[mask_ref s :=
                               t fid (iter s) x y w (eval func x p) (heap s ! mask_ref s)]\<rparr>)\<lparr>success := True\<rparr>"
  have s3f: "calls s3 = cs" "params s3 = Some p" "success s3" "iter s3 = iter s"
    by (simp_all add: s3_def split: option.splits)
  have fr: "fit_round self func fid x y w p0 s =
        (case finder s3 of None \<Rightarrow> Break s3 | Some f \<Rightarrow> round_find func x y w f p s3)"
    using Inr pc by (simp add: fit_round_def s3_def Let_def split: option.splits)
  from round_params_cases[OF Inr[unfolded pc]]
  have cs: "(initial_estimate self p0 (iter s) = Some p \<and> cs = calls s) \<or>
            (initial_estimate self p0 (iter s) = None \<and> cs = calls s @ [FitCall p])" .
  have ok_cs: "list_all (\<lambda>c. \<not> stopping func c) cs"
    using cs assms by (auto simp add: loop_head_def stopping_def)
  have lf: "last_fit cs = Some p \<or> (last_fit cs = None \<and> p0 = Some p)"
  proof -
    from cs show ?thesis
    proof
      assume a: "initial_estimate self p0 (iter s) = Some p \<and> cs = calls s"
      then have "iter s = 0" "p0 = Some p"
        by (auto simp add: initial_estimate_def split: if_splits)
      then show ?thesis using a assms by (simp add: loop_head_def last_fit_def)
    next
      assume "initial_estimate self p0 (iter s) = None \<and> cs = calls s @ [FitCall p]"
      then show ?thesis by (simp add: last_fit_snoc_fit)
    qed
  qed
  show ?thesis
  proof (cases "finder s3")
    case None
    have "loop_exit func p0 s3"
      using s3f ok_cs lf by (simp add: loop_exit_def list_all_butlast)
    then show ?thesis using fr None by simp
  next
    case (Some f)
    from round_find_cases[of s3 func x y w f p] obtain s' mm again where
      r: "calls s' = calls s3 @ [FindCall (iter s3) mm again]" "params s' = params s3"
         "success s' = success s3" "iter s' = Suc (iter s3)"
         "round_find func x y w f p s3 =
            (if again \<and> \<not> int (count_true mm) < get_min_point_count func then Continue s' else Break s')"
      by blast
    show ?thesis
    proof (cases "again \<and> \<not> int (count_true mm) < get_min_point_count func")
      case True
      then have "loop_head func s'"
        using r(1,4) s3f(1) ok_cs by (simp add: loop_head_def stopping_def)
      then show ?thesis using fr Some r(5) True by simp
    next
      case False
      have "loop_exit func p0 s'"
        using r(1,2,3) s3f ok_cs lf by (simp add: loop_exit_def last_fit_snoc_find)
      then show ?thesis using fr Some r(5) False by simp
    qed
  qed
qed

lemma fit_loop_cases:
  assumes step: "\<And>s. J s \<Longrightarrow>
      (case body s of Continue s' \<Rightarrow> J s' | Break s' \<Rightarrow> Q s' | Raise e s' \<Rightarrow> J s')"
    and "J s"
  shows "case fit_loop n body s of Continue s' \<Rightarrow> J s' | Break s' \<Rightarrow> Q s' | Raise e s' \<Rightarrow> J s'"
  using assms(2)
proof (induction n arbitrary: s)
  case 0
  then show ?case by simp
next
  case (Suc n)
  from step[OF Suc.prems] show ?case
    by (cases "body s") (simp_all add: Suc.IH)
qed

lemma fit_start_loop_head: "loop_head func (fit_start self x msk finder_arg)"
  by (simp add: loop_head_def fit_start_def Let_def)

lemma fit_function_loop_cases:
  "case fit_loop fuel (fit_round self func fid x y w p0) (fit_start self x msk finder_arg) of
     Continue s' \<Rightarrow> loop_head func s'
   | Break s' \<Rightarrow> loop_exit func p0 s'
   | Raise e s' \<Rightarrow> loop_head func s'"
  by (rule fit_loop_cases[where J = "loop_head func"]) (rule fit_round_cases, assumption, rule fit_start_loop_head)

text \<open>
  Whenever \<open>fit_function\<close> returns, it returns success and parameters: the branch
  that returns failure with a vector of NaN is never taken.
\<close>

lemma fit_function_returns_success:
  assumes "fit_function self fuel fid func x y w p0 msk finder_arg = Returned r s"
  shows "fst r = True \<and> snd r = params s \<and> snd r \<noteq> None"
  using assms fit_function_loop_cases[where fuel = fuel and self = self and func = func and fid = fid and x = x and y = y and w = w and ?p0.0 = p0 and msk = msk and finder_arg = finder_arg]
  by (auto simp add: fit_function_def loop_exit_def split: flow.splits if_splits)

text \<open>
  A find at the floor is the last call of the log, and the call has returned with the
  parameters of its last round.
\<close>

lemma floor_find_is_last:
  assumes log: "calls (final_state (fit_function self fuel fid func x y w p0 msk finder_arg)) =
             pre @ FindCall i m True # post"
    and small: "int (count_true m) < get_min_point_count func"
  shows "post = [] \<and>
         (\<exists>s q. fit_function self fuel fid func x y w p0 msk finder_arg = Returned (True, Some q) s \<and>
                 (last_fit pre = Some q \<or> (last_fit pre = None \<and> p0 = Some q)))"
proof -
  let ?fl = "fit_loop fuel (fit_round self func fid x y w p0) (fit_start self x msk finder_arg)"
  have st: "stopping func (FindCall i m True)"
    using small by (simp add: stopping_def)
  have no: "\<not> list_all (\<lambda>c. \<not> stopping func c) (pre @ FindCall i m True # post)"
    using st by simp
  show ?thesis
  proof (cases ?fl)
    case (Continue s')
    then have "loop_head func s'" using fit_function_loop_cases[where fuel = fuel and self = self and func = func and fid = fid and x = x and y = y and w = w and ?p0.0 = p0 and msk = msk and finder_arg = finder_arg] by simp
    moreover have "calls s' = pre @ FindCall i m True # post"
      using log Continue by (simp add: fit_function_def)
    ultimately show ?thesis using no by (simp add: loop_head_def)
  next
    case (Raise e s')
    then have "loop_head func s'" using fit_function_loop_cases[where fuel = fuel and self = self and func = func and fid = fid and x = x and y = y and w = w and ?p0.0 = p0 and msk = msk and finder_arg = finder_arg] by simp
    moreover have "calls s' = pre @ FindCall i m True # post"
      using log Raise by (simp add: fit_function_def)
    ultimately show ?thesis using no by (simp add: loop_head_def)
  next
    case (Break s')
    then have ex: "loop_exit func p0 s'"
      using fit_function_loop_cases[where fuel = fuel and self = self and func = func and fid = fid and x = x and y = y and w = w and ?p0.0 = p0 and msk = msk and finder_arg = finder_arg] by simp
    then have succ: "success s'" by (simp add: loop_exit_def)
    have cl: "calls s' = pre @ FindCall i m True # post"
      using log Break succ by (simp add: fit_function_def)
    have post: "post = []"
    proof (rule ccontr)
      assume "post \<noteq> []"
      then have "butlast (calls s') = pre @ FindCall i m True # butlast post"
        using cl by (simp add: butlast_append)
      then show False using ex st by (simp add: loop_exit_def)
    qed
    from ex obtain q where q: "params s' = Some q"
        "last_fit (calls s') = Some q \<or> (last_fit (calls s') = None \<and> p0 = Some q)"
      by (auto simp add: loop_exit_def)
    have "last_fit (calls s') = last_fit pre"
      using cl post by (simp add: last_fit_snoc_find)
    then have "last_fit pre = Some q \<or> (last_fit pre = None \<and> p0 = Some q)"
      using q(2) by simp
    moreover have "fit_function self fuel fid func x y w p0 msk finder_arg = Returned (True, Some q) s'"
      using Break succ q(1) by (simp add: fit_function_def)
    ultimately show ?thesis using post by blast
  qed
qed

text \<open>
  C8, as the code has it. If the log of a call holds a find that asked for more
  iterations and returned a mask with fewer true points than the function's minimum,
  then that find is the last call of the log (no fit follows it) and \<open>fit_function\<close>
  has returned; and when a fit was completed before that find, it has returned success
  with the parameters of the last such fit.
\<close>

theorem min_point_floor_stops:
  assumes log: "calls (final_state (fit_function self fuel fid func x y w p0 msk finder_arg)) =
             pre @ FindCall i m True # post"
    and small: "int (count_true m) < get_min_point_count func"
  shows "post = [] \<and>
         (\<exists>r s. fit_function self fuel fid func x y w p0 msk finder_arg = Returned r s \<and>
                 (fits pre \<noteq> [] \<longrightarrow> r = (True, Some (last (fits pre)))))"
proof -
  from floor_find_is_last[OF log small] obtain s q where
    post: "post = []"
    and ret: "fit_function self fuel fid func x y w p0 msk finder_arg = Returned (True, Some q) s"
    and q: "last_fit pre = Some q \<or> (last_fit pre = None \<and> p0 = Some q)"
    by blast
  have "q = last (fits pre)" if "fits pre \<noteq> []"
    using q that by (simp add: last_fit_def)
  then show ?thesis using post ret by simp
qed

text \<open>
  Two rounds: the finder first drops one of three points, then all of them; the
  result is the second fit's.
\<close>

theorem min_point_floor_stops_witness:
  "calls (final_state (fit_function (ContinuumModel_init (Some shrink_finder) None None None) 5 ''a''
       count_func [1, 2, 3] [4, 5, 6] None None None None)) =
     [FitCall [Fin 3, Fin 0], FindCall 0 [False, True, True] True, FitCall [Fin 2, Fin 3]] @
       FindCall 1 [False, False, False] True # [] \<and>
   int (count_true [False, False, False]) < get_min_point_count count_func \<and>
   fits [FitCall [Fin 3, Fin 0], FindCall 0 [False, True, True] True, FitCall [Fin 2, Fin 3]] =
     [[Fin 3, Fin 0], [Fin 2, Fin 3]] \<and>
   (\<exists>r s. fit_function (ContinuumModel_init (Some shrink_finder) None None None) 5 ''a''
       count_func [1, 2, 3] [4, 5, 6] None None None None = Returned r s \<and>
       r = (True, Some [Fin 2, Fin 3]))"
  using min_point_floor_stops
    [where self = "ContinuumModel_init (Some shrink_finder) None None None" and fuel = 5 and fid = "''a''"
       and func = count_func and x = "[1, 2, 3]" and y = "[4, 5, 6]" and w = None and ?p0.0 = None
       and msk = None and finder_arg = None
       and pre = "[FitCall [Fin 3, Fin 0], FindCall 0 [False, True, True] True, FitCall [Fin 2, Fin 3]]"
       and i = 1 and m = "[False, False, False]" and post = "[]"]
  by (simp add: fit_function_def fit_start_def fit_round_def round_params_def round_find_def
        initial_estimate_def ContinuumModel_init_def count_func_def shrink_finder_def
        bool_index_def select_def count_true_def Let_def eval_nat_numeral)

text \<open>
  The model has a finder, the caller gives an estimate, and the first find is at the
  floor: the call returns the estimate, and the log holds no fit whose parameters these
  could be.
\<close>

theorem min_point_floor_stops_counterexample:
  "\<exists>s. fit_function (ContinuumModel_init (Some empty_finder) None None None) 3 ''a'' count_func
          [1, 2, 3] [4, 5, 6] None (Some [Fin 7, Fin 8]) None None =
          Returned (True, Some [Fin 7, Fin 8]) s \<and>
        calls s = [FindCall 0 [False, False, False] True] \<and>
        int (count_true [False, False, False]) < get_min_point_count count_func \<and>
        fits (calls s) = []"
  by (simp add: fit_function_def fit_start_def fit_round_def round_params_def round_find_def
        initial_estimate_def ContinuumModel_init_def count_func_def empty_finder_def
        bool_index_def select_def count_true_def Let_def numeral_3_eq_3)

subsection \<open>A finder that never stops\<close>

lemma more_round:
  assumes "more_inv s"
  shows "\<exists>s'. fit_round (ContinuumModel_init (Some more_finder) None None None) count_func ''a''
                 [1, 2, 3] [4, 5, 6] None None s = Continue s' \<and>
              more_inv s' \<and> iter s' = Suc (iter s) \<and>
              length (fits (calls s')) = Suc (length (fits (calls s)))"
  using assms
  by (simp add: more_inv_def fit_round_def round_params_def round_find_def initial_estimate_def
        ContinuumModel_init_def count_func_def more_finder_def bool_index_def count_true_def
        Let_def fits_append)

lemma more_loop:
  assumes "more_inv s"
  shows "\<exists>s'. fit_loop n (fit_round (ContinuumModel_init (Some more_finder) None None None) count_func ''a''
                 [1, 2, 3] [4, 5, 6] None None) s = Continue s' \<and>
              more_inv s' \<and> iter s' = iter s + n \<and>
              length (fits (calls s')) = length (fits (calls s)) + n"
  using assms
proof (induction n arbitrary: s)
  case 0
  then show ?case by simp
next
  case (Suc n)
  from more_round[OF Suc.prems] obtain s1 where
    s1: "fit_round (ContinuumModel_init (Some more_finder) None None None) count_func ''a''
                 [1, 2, 3] [4, 5, 6] None None s = Continue s1"
        "more_inv s1" "iter s1 = Suc (iter s)"
        "length (fits (calls s1)) = Suc (length (fits (calls s)))"
    by blast
  from Suc.IH[OF s1(2)] s1 show ?case by auto
qed

text \<open>
  C1 (the code departs from the claim). A model constructed with the default
  \<open>max_iter\<close> of 5 and a finder that always asks for more iterations and leaves the
  mask as it is: after \<open>n\<close> rounds, for every \<open>n\<close>, the loop is still running, has
  counted \<open>n\<close> iterations and has called \<open>fit\<close> \<open>n\<close> times. The loop never reads
  \<open>max_iter\<close>.
\<close>

theorem fit_function_runs_past_max_iter:
  "max_iter (ContinuumModel_init (Some more_finder) None None None) = 5 \<and>
   (\<forall>n. \<exists>s. fit_function (ContinuumModel_init (Some more_finder) None None None) n ''a'' count_func
                [1, 2, 3] [4, 5, 6] None None None None = Running s \<and>
              iter s = n \<and> length (fits (calls s)) = n)"
proof -
  define s0 :: "unit fit_state" where
    "s0 = fit_start (ContinuumModel_init (Some more_finder) None None None) [1, 2, 3] None None"
  have start: "more_inv s0" "iter s0 = 0" "calls s0 = []"
    by (simp_all add: s0_def more_inv_def fit_start_def ContinuumModel_init_def Let_def
          eval_nat_numeral)
  have "\<exists>s. fit_function (ContinuumModel_init (Some more_finder) None None None) n ''a'' count_func
                [1, 2, 3] [4, 5, 6] None None None None = Running s \<and>
              iter s = n \<and> length (fits (calls s)) = n" for n
  proof -
    from more_loop[OF start(1), of n] obtain s' where
      "fit_loop n (fit_round (ContinuumModel_init (Some more_finder) None None None) count_func ''a''
                 [1, 2, 3] [4, 5, 6] None None) s0 = Continue s'"
      "iter s' = iter s0 + n" "length (fits (calls s')) = length (fits (calls s0)) + n"
      by blast
    then show ?thesis
      using start(2,3) by (simp add: fit_function_def s0_def[symmetric])
  qed
  then show ?thesis by (simp add: ContinuumModel_init_def)
qed

end
